theory Spec2Isabelle
  imports Main
begin

section \<open>The messages table (src/index.ts, lines 64-70)\<close>

text \<open>
  One row of the table
  \<^verbatim>\<open>messages (id INTEGER PRIMARY KEY AUTOINCREMENT, client_offset TEXT UNIQUE, content TEXT)\<close>.
  The column \<^verbatim>\<open>id\<close> is called \<open>msg_id\<close> here, since \<open>id\<close> is the identity function of HOL.
  Row ids are 64-bit integers in SQLite and numbers in JavaScript; the model uses
  natural numbers.
\<close>

record message =
  msg_id :: nat
  client_offset :: string
  content :: string

text \<open>
  The database file: the rows of the table in rowid order (the order of the table's B-tree,
  which is the order of a scan), and the table's entry in \<^verbatim>\<open>sqlite_sequence\<close>, the
  largest id AUTOINCREMENT has handed out so far.
\<close>

record database =
  messages :: "message list"
  sqlite_sequence :: nat

text \<open>The error object a rejected database call throws; the handlers read only \<^verbatim>\<open>e.errno\<close>.\<close>

datatype sqlite_error = SqliteError (errno: nat)

definition SQLITE_CONSTRAINT :: nat where
  "SQLITE_CONSTRAINT = 19"

text \<open>The database after \<^verbatim>\<open>CREATE TABLE IF NOT EXISTS\<close> on a fresh file.\<close>

definition empty_db :: database where
  "empty_db = \<lparr>messages = [], sqlite_sequence = 0\<rparr>"

definition max_rowid :: "message list \<Rightarrow> nat" where
  "max_rowid rs = foldr max (map msg_id rs) 0"

definition tokens :: "database \<Rightarrow> string list" where
  "tokens db = map client_offset (messages db)"

text \<open>
  \<^verbatim>\<open>db.run("INSERT INTO messages (content, client_offset) VALUES (?, ?)", msg, clientOffset)\<close>
  (lines 90-94). The first argument is the environment: \<open>Some e\<close> when the statement fails
  for a reason other than the token (I/O, lock, corruption, another constraint, ...), which
  rejects with the error \<open>e\<close>, whatever its errno. Otherwise the UNIQUE constraint on
  \<^verbatim>\<open>client_offset\<close> is checked; its violation rejects with errno 19 (SQLITE_CONSTRAINT).
  A rejected statement is rolled back: it changes neither the table nor
  \<^verbatim>\<open>sqlite_sequence\<close>. A statement that succeeds gets the id one above the largest id
  handed out so far (AUTOINCREMENT) and resolves with it as \<^verbatim>\<open>lastID\<close>.
\<close>

definition db_run_insert ::
  "sqlite_error option \<Rightarrow> string \<Rightarrow> string \<Rightarrow> database \<Rightarrow> (sqlite_error + nat) \<times> database" where
  "db_run_insert fault msg clientOffset db =
     (case fault of
        Some e \<Rightarrow> (Inl e, db)
      | None \<Rightarrow>
          if clientOffset \<in> set (tokens db) then (Inl (SqliteError SQLITE_CONSTRAINT), db)
          else
            let lastID = Suc (max (sqlite_sequence db) (max_rowid (messages db)))
            in (Inr lastID,
                db\<lparr>messages := messages db @
                     [\<lparr>msg_id = lastID, client_offset = clientOffset, content = msg\<rparr>],
                   sqlite_sequence := lastID\<rparr>))"

text \<open>
  The invariant of the table: ids are positive, ascend along the table, never exceed
  \<^verbatim>\<open>sqlite_sequence\<close>, and no two rows share a \<^verbatim>\<open>client_offset\<close>.
\<close>

definition wf_db :: "database \<Rightarrow> bool" where
  "wf_db db \<longleftrightarrow>
     sorted_wrt (<) (map msg_id (messages db)) \<and>
     list_all (\<lambda>r. 0 < msg_id r \<and> msg_id r \<le> sqlite_sequence db) (messages db) \<and>
     distinct (tokens db)"

text \<open>A request to insert, as it reaches the store: the environment's fault, the content, the token.\<close>

type_synonym insert_request = "sqlite_error option \<times> string \<times> string"

text \<open>Running requests one after the other, as SQLite serialises them: the outcomes, and the database left.\<close>

fun run_inserts :: "insert_request list \<Rightarrow> database \<Rightarrow> (sqlite_error + nat) list \<times> database" where
  "run_inserts [] db = ([], db)"
| "run_inserts ((fault, msg, clientOffset) # reqs) db =
     (case db_run_insert fault msg clientOffset db of
        (r, db') \<Rightarrow> (case run_inserts reqs db' of (rs, db'') \<Rightarrow> (r # rs, db'')))"

text \<open>The sequence numbers returned by the successful inserts among a list of outcomes, in order.\<close>

fun lastIDs :: "(sqlite_error + nat) list \<Rightarrow> nat list" where
  "lastIDs [] = []"
| "lastIDs (Inl e # rs) = lastIDs rs"
| "lastIDs (Inr n # rs) = n # lastIDs rs"

text \<open>
  \<^verbatim>\<open>db.each<MessageRow>("SELECT id, content FROM messages WHERE id > ?", [offset], callback)\<close>
  (lines 106-112): a row as the callback receives it, \<^verbatim>\<open>interface MessageRow\<close> of lines 35-38.
\<close>

record MessageRow =
  row_id :: nat
  row_content :: string

text \<open>
  What the environment does to the read: nothing (\<open>None\<close>); a failure before the scan starts
  (the statement cannot be prepared); or a failure of a step of the scan, after a number of
  rows have been read (I/O, lock, corruption, ...).
\<close>

datatype read_fault =
    PrepareError sqlite_error
  | StepError nat sqlite_error

text \<open>
  The three outcomes of the read. \<open>Resolved rows\<close>: the callback has been called with
  \<^verbatim>\<open>(null, row)\<close> for every row, and the promise resolves. \<open>Rejected e\<close>: the promise rejects
  with \<open>e\<close>, and the callback has not been called. \<open>RowError rows e\<close>: the callback has been
  called with \<^verbatim>\<open>(null, row)\<close> for the rows read so far, and then with \<^verbatim>\<open>(e, null)\<close>: the
  error of a step is handed to the row callback, not to the promise.
\<close>

datatype each_outcome =
    Resolved "MessageRow list"
  | Rejected sqlite_error
  | RowError "MessageRow list" sqlite_error

text \<open>
  The scan goes through the table in rowid order (the statement has no ORDER BY; the
  condition on the INTEGER PRIMARY KEY is a range scan of the table) and reads every row
  beyond the offset.
\<close>

definition db_each :: "read_fault option \<Rightarrow> int \<Rightarrow> database \<Rightarrow> each_outcome" where
  "db_each fault offset db =
     (let rows = map (\<lambda>r. \<lparr>row_id = msg_id r, row_content = content r\<rparr>)
                   (filter (\<lambda>r. offset < int (msg_id r)) (messages db))
      in case fault of
           None \<Rightarrow> Resolved rows
         | Some (PrepareError e) \<Rightarrow> Rejected e
         | Some (StepError k e) \<Rightarrow> RowError (take k rows) e)"

text \<open>The arguments \<^verbatim>\<open>(err, row)\<close> of the calls of the row callback, in order.\<close>

type_synonym callback_args = "sqlite_error option \<times> MessageRow option"

definition callback_calls :: "each_outcome \<Rightarrow> callback_args list" where
  "callback_calls out =
     (case out of
        Resolved rows \<Rightarrow> map (\<lambda>r. (None, Some r)) rows
      | Rejected e \<Rightarrow> []
      | RowError rows e \<Rightarrow> map (\<lambda>r. (None, Some r)) rows @ [(Some e, None)])"

section \<open>The handlers of a worker (src/index.ts, lines 83-121)\<close>

text \<open>An exception of JavaScript: reading a property of \<^verbatim>\<open>null\<close> throws a TypeError.\<close>

datatype js_error = TypeError

text \<open>
  What a handler does to the outside, in the order it does it. \<open>Uncaught\<close> is an exception
  that nothing catches: the worker process exits.
\<close>

datatype effect =
    ConsoleLog string
  | ConsoleError string sqlite_error
  | IoEmit string nat
  | SocketEmit string nat
  | Callback
  | Uncaught js_error

fun crashed :: "effect list \<Rightarrow> bool" where
  "crashed [] = False"
| "crashed (Uncaught ex # es) = True"
| "crashed (e # es) = crashed es"

text \<open>
  The handler of \<^verbatim>\<open>"chat message"\<close> (lines 86-102): insert, then
  \<^verbatim>\<open>io.emit("chat message", msg, result.lastID)\<close> and \<^verbatim>\<open>callback()\<close>; in the catch
  branch \<^verbatim>\<open>callback()\<close> when \<^verbatim>\<open>e.errno === 19\<close>, and \<^verbatim>\<open>console.error\<close> otherwise.
\<close>

definition chat_message ::
  "sqlite_error option \<Rightarrow> string \<Rightarrow> string \<Rightarrow> database \<Rightarrow> effect list \<times> database" where
  "chat_message fault msg clientOffset db =
     (case db_run_insert fault msg clientOffset db of
        (Inr lastID, db') \<Rightarrow> ([IoEmit msg lastID, Callback], db')
      | (Inl e, db') \<Rightarrow>
          (if errno e = 19 then [Callback] else [ConsoleError ''Database error:'' e], db'))"

text \<open>
  A socket as the connection handler sees it: its id, \<^verbatim>\<open>socket.recovered\<close>,
  \<^verbatim>\<open>socket.handshake.auth.serverOffset\<close> (\<open>None\<close> when the client sent none), and the events
  for which \<^verbatim>\<open>socket.on\<close> has registered a listener.
\<close>

record socket =
  socket_id :: string
  recovered :: bool
  serverOffset :: "int option"
  listeners :: "string list"

text \<open>\<^verbatim>\<open>socket.handshake.auth.serverOffset || 0\<close>: an absent offset and the offset 0 are falsy.\<close>

definition serverOffset_or_0 :: "int option \<Rightarrow> int" where
  "serverOffset_or_0 v = (case v of None \<Rightarrow> 0 | Some n \<Rightarrow> if n = 0 then 0 else n)"

text \<open>
  The row callback of the replay (lines 109-111),
  \<^verbatim>\<open>(_err, row) => { socket.emit("chat message", row.content, row.id); }\<close>:
  it does not look at the error and reads the fields of the row, which throws when the row
  is \<^verbatim>\<open>null\<close>.
\<close>

definition replay_callback :: "sqlite_error option \<Rightarrow> MessageRow option \<Rightarrow> js_error + effect" where
  "replay_callback err row =
     (case row of
        None \<Rightarrow> Inl TypeError
      | Some r \<Rightarrow> Inr (SocketEmit (row_content r) (row_id r)))"

text \<open>
  The calls of the row callback, one after the other. An exception it throws is thrown in
  the call stack of the database driver, outside the \<^verbatim>\<open>try\<close> of line 105: it is uncaught.
\<close>

fun run_callback :: "callback_args list \<Rightarrow> effect list" where
  "run_callback [] = []"
| "run_callback ((err, row) # calls) =
     (case replay_callback err row of
        Inl ex \<Rightarrow> [Uncaught ex]
      | Inr eff \<Rightarrow> eff # run_callback calls)"

text \<open>
  The handler of \<^verbatim>\<open>"connection"\<close> (lines 83-121): log, register the chat listener, replay
  unless the transport recovered the connection, register the disconnect listener. The
  catch branch of the replay (lines 113-115) logs a rejected read and goes on. When the row
  callback throws, the process exits and the handler never resumes.
\<close>

definition connection ::
  "read_fault option \<Rightarrow> socket \<Rightarrow> database \<Rightarrow> effect list \<times> socket" where
  "connection readFault sock db =
     (let s1 = sock\<lparr>listeners := listeners sock @ [''chat message'']\<rparr>;
          s2 = s1\<lparr>listeners := listeners s1 @ [''disconnect'']\<rparr>;
          logged = ConsoleLog (''New client connected: '' @ socket_id sock)
      in if \<not> recovered sock then
           (let out = db_each readFault (serverOffset_or_0 (serverOffset sock)) db;
                emitted = run_callback (callback_calls out)
            in if crashed emitted then (logged # emitted, s1)
               else
                 (case out of
                    Rejected e \<Rightarrow>
                      (logged # emitted @ [ConsoleError ''Error recovering messages:'' e], s2)
                  | _ \<Rightarrow> (logged # emitted, s2)))
         else ([logged], s2))"

text \<open>The content and sequence number of every \<^verbatim>\<open>socket.emit\<close> among the effects, in order.\<close>

fun replayed :: "effect list \<Rightarrow> (string \<times> nat) list" where
  "replayed [] = []"
| "replayed (SocketEmit c n # es) = (c, n) # replayed es"
| "replayed (e # es) = replayed es"

section \<open>The pool of workers\<close>

text \<open>
  The workers share the database file; each worker has the sockets connected to it.
  What a client or an operator can observe: a chat message arriving at a socket of a worker,
  an acknowledgment arriving at the sender, the console of a worker, and the exit of a
  worker process, which the primary logs (lines 53-55) and does not restart.
\<close>

record cluster =
  store :: database
  workers :: "socket list list"

datatype observation =
    ChatMessage nat string string nat
  | Acknowledged nat string
  | Stdout nat string
  | Stderr nat string sqlite_error
  | WorkerExit nat

text \<open>
  Modelled from the spec: the Broadcast Fabric, which the source only calls
  (\<^verbatim>\<open>io.emit\<close> of the Socket.IO server with the cluster adapter). It delivers an event
  published on one worker to every socket attached to that worker and to every socket
  attached to every other worker.
\<close>

definition io_emit :: "socket list list \<Rightarrow> string \<Rightarrow> nat \<Rightarrow> observation list" where
  "io_emit ws msg n =
     concat (map (\<lambda>(w, ss). map (\<lambda>s. ChatMessage w (socket_id s) msg n) ss) (enumerate 0 ws))"

text \<open>An effect of a handler that runs on worker \<open>w\<close> for the socket \<open>sid\<close>, as observed.\<close>

fun perform :: "socket list list \<Rightarrow> nat \<Rightarrow> string \<Rightarrow> effect \<Rightarrow> observation list" where
  "perform ws w sid (ConsoleLog s) = [Stdout w s]"
| "perform ws w sid (ConsoleError s e) = [Stderr w s e]"
| "perform ws w sid (IoEmit msg n) = io_emit ws msg n"
| "perform ws w sid (SocketEmit c n) = [ChatMessage w sid c n]"
| "perform ws w sid Callback = [Acknowledged w sid]"
| "perform ws w sid (Uncaught ex) = [WorkerExit w]"

definition lookup_socket :: "cluster \<Rightarrow> nat \<Rightarrow> string \<Rightarrow> socket option" where
  "lookup_socket c w sid =
     (if w < length (workers c) then find (\<lambda>s. socket_id s = sid) (workers c ! w) else None)"

text \<open>
  A client connects to worker \<open>w\<close>: the connection handler runs, on the database as it is
  at the read, and the socket joins the worker. When the handler ends in an uncaught
  exception the worker process exits, and every connection of that worker is gone with it.
\<close>

definition client_connect ::
  "nat \<Rightarrow> read_fault option \<Rightarrow> socket \<Rightarrow> cluster \<Rightarrow> observation list \<times> cluster" where
  "client_connect w readFault sock c =
     (if w < length (workers c) then
        (case connection readFault sock (store c) of
           (effs, sock') \<Rightarrow>
             (concat (map (perform (workers c) w (socket_id sock)) effs),
              c\<lparr>workers := (workers c)
                   [w := (if crashed effs then [] else workers c ! w @ [sock'])]\<rparr>))
      else ([], c))"

text \<open>
  The client behind socket \<open>sid\<close> of worker \<open>w\<close> sends a chat message: the handler runs on that
  worker, if the socket is connected there and has the listener.
\<close>

definition client_chat_message ::
  "nat \<Rightarrow> string \<Rightarrow> sqlite_error option \<Rightarrow> string \<Rightarrow> string \<Rightarrow> cluster \<Rightarrow> observation list \<times> cluster" where
  "client_chat_message w sid fault msg clientOffset c =
     (case lookup_socket c w sid of
        None \<Rightarrow> ([], c)
      | Some s \<Rightarrow>
          if ''chat message'' \<in> set (listeners s) then
            (case chat_message fault msg clientOffset (store c) of
               (effs, db') \<Rightarrow> (concat (map (perform (workers c) w sid) effs), c\<lparr>store := db'\<rparr>))
          else ([], c))"

text \<open>The client disconnects (lines 118-120): the listener logs, and the socket leaves the worker.\<close>

definition client_disconnect :: "nat \<Rightarrow> string \<Rightarrow> cluster \<Rightarrow> observation list \<times> cluster" where
  "client_disconnect w sid c =
     (case lookup_socket c w sid of
        None \<Rightarrow> ([], c)
      | Some s \<Rightarrow>
          ((if ''disconnect'' \<in> set (listeners s)
            then [Stdout w (''Client disconnected: '' @ sid)] else []),
           c\<lparr>workers := (workers c)[w := filter (\<lambda>s. socket_id s \<noteq> sid) (workers c ! w)]\<rparr>))"

definition is_ack :: "observation \<Rightarrow> bool" where
  "is_ack ob = (case ob of Acknowledged w sid \<Rightarrow> True | _ \<Rightarrow> False)"

definition is_chat :: "observation \<Rightarrow> bool" where
  "is_chat ob = (case ob of ChatMessage w sid c n \<Rightarrow> True | _ \<Rightarrow> False)"

section \<open>The primary process (src/index.ts, lines 40-55) and the listener of a worker (lines 123-130)\<close>

text \<open>\<^verbatim>\<open>(3000 + i).toString()\<close>: the decimal digits of a non-negative integer.\<close>

definition digit_char :: "nat \<Rightarrow> char" where
  "digit_char d = char_of (48 + d)"

function toString :: "nat \<Rightarrow> string" where
  "toString n = (if n < 10 then [digit_char n] else toString (n div 10) @ [digit_char (n mod 10)])"
  by pat_completeness auto
termination
  by (relation "measure (\<lambda>n. n)") auto

declare toString.simps [simp del]

text \<open>
  \<^verbatim>\<open>parseInt(s, 10)\<close>: skip leading white space, read a sign, then the longest run of decimal
  digits; \<open>None\<close> is NaN, the result when there is no digit.
\<close>

definition is_white_space :: "char \<Rightarrow> bool" where
  "is_white_space c \<longleftrightarrow> (of_char c :: nat) \<in> {9, 10, 11, 12, 13, 32}"

definition is_digit :: "char \<Rightarrow> bool" where
  "is_digit c \<longleftrightarrow> 48 \<le> (of_char c :: nat) \<and> (of_char c :: nat) \<le> 57"

definition digit_value :: "char \<Rightarrow> nat" where
  "digit_value c = of_char c - 48"

definition digits_value :: "string \<Rightarrow> nat" where
  "digits_value ds = foldl (\<lambda>a c. 10 * a + digit_value c) 0 ds"

definition parseInt10 :: "string \<Rightarrow> int option" where
  "parseInt10 s =
     (let s1 = dropWhile is_white_space s;
          neg = (case s1 of c # cs \<Rightarrow> c = CHR ''-'' | [] \<Rightarrow> False);
          s2 = (case s1 of c # cs \<Rightarrow> if c = CHR ''-'' \<or> c = CHR ''+'' then cs else s1 | [] \<Rightarrow> s1);
          ds = takeWhile is_digit s2
      in if ds = [] then None
         else Some (if neg then - int (digits_value ds) else int (digits_value ds)))"

text \<open>The environment of a process: \<^verbatim>\<open>process.env\<close>.\<close>

type_synonym env = "string \<rightharpoonup> string"

text \<open>
  The loop of the primary, from \<open>i\<close> on: set \<^verbatim>\<open>process.env.PORT\<close>, then \<^verbatim>\<open>cluster.fork()\<close>,
  which starts a worker with a copy of the environment as it is at that moment. The result
  is the environment of the primary and the environments of the workers forked, in order.
\<close>

function fork_loop :: "nat \<Rightarrow> nat \<Rightarrow> env \<Rightarrow> env list \<Rightarrow> env \<times> env list" where
  "fork_loop i numCPUs penv forked =
     (if i < numCPUs then
        (let penv' = penv(''PORT'' \<mapsto> toString (3000 + i))
         in fork_loop (Suc i) numCPUs penv' (forked @ [penv']))
      else (penv, forked))"
  by pat_completeness auto
termination
  by (relation "measure (\<lambda>(i, numCPUs, penv, forked). numCPUs - i)") auto

declare fork_loop.simps [simp del]

text \<open>The primary, given the value of \<^verbatim>\<open>availableParallelism()\<close>: the workers it starts.\<close>

definition primary :: "nat \<Rightarrow> env \<Rightarrow> env list" where
  "primary numCPUs penv = snd (fork_loop 0 numCPUs penv [])"

text \<open>
  \<^verbatim>\<open>parseInt(process.env.PORT || "3000", 10)\<close> in a worker; an unset and an empty variable
  are falsy.
\<close>

definition worker_port :: "env \<Rightarrow> int option" where
  "worker_port wenv =
     parseInt10 (case wenv ''PORT'' of None \<Rightarrow> ''3000'' | Some s \<Rightarrow> if s = [] then ''3000'' else s)"

text \<open>The calls of \<^verbatim>\<open>server.listen\<close> a worker makes: one, with its port.\<close>

definition worker_listen :: "env \<Rightarrow> int option list" where
  "worker_listen wenv = [worker_port wenv]"

section \<open>Example states\<close>

text \<open>
  The scenario of the specification: client A on the first worker and client B on the second,
  before and after A's message with token t1 and content hi; a log of three messages, and B
  as it connects to it: for the first time, and recovered by the transport.
\<close>

definition sock_A :: socket where
  "sock_A = \<lparr>socket_id = ''A'', recovered = False, serverOffset = None,
             listeners = [''chat message'', ''disconnect'']\<rparr>"

definition sock_B :: socket where
  "sock_B = \<lparr>socket_id = ''B'', recovered = False, serverOffset = None,
             listeners = [''chat message'', ''disconnect'']\<rparr>"

definition db_hi :: database where
  "db_hi = \<lparr>messages = [\<lparr>msg_id = 1, client_offset = ''t1'', content = ''hi''\<rparr>],
            sqlite_sequence = 1\<rparr>"

definition db_three :: database where
  "db_three = \<lparr>messages = [\<lparr>msg_id = 1, client_offset = ''t1'', content = ''hi''\<rparr>,
                           \<lparr>msg_id = 2, client_offset = ''t2'', content = ''yo''\<rparr>,
                           \<lparr>msg_id = 3, client_offset = ''t3'', content = ''ok''\<rparr>],
               sqlite_sequence = 3\<rparr>"

definition new_B :: socket where
  "new_B = \<lparr>socket_id = ''B'', recovered = False, serverOffset = None, listeners = []\<rparr>"

definition back_B :: socket where
  "back_B = \<lparr>socket_id = ''B'', recovered = True, serverOffset = Some 1, listeners = []\<rparr>"

definition pool_three :: cluster where
  "pool_three = \<lparr>store = db_three, workers = [[sock_A], []]\<rparr>"

definition pool_empty :: cluster where
  "pool_empty = \<lparr>store = empty_db, workers = [[sock_A], [sock_B]]\<rparr>"

definition pool_hi :: cluster where
  "pool_hi = \<lparr>store = db_hi, workers = [[sock_A], [sock_B]]\<rparr>"

section \<open>Properties of the store\<close>

lemma wf_empty_db: "wf_db empty_db"
  by (simp add: wf_db_def empty_db_def tokens_def)

lemma max_rowid_le:
  "list_all (\<lambda>r. msg_id r \<le> n) rs \<Longrightarrow> max_rowid rs \<le> n"
  by (induction rs) (auto simp: max_rowid_def)

lemma wf_max_rowid: "wf_db db \<Longrightarrow> max (sqlite_sequence db) (max_rowid (messages db)) = sqlite_sequence db"
proof -
  assume "wf_db db"
  then have "list_all (\<lambda>r. msg_id r \<le> sqlite_sequence db) (messages db)"
    by (auto simp: wf_db_def list_all_iff)
  then have "max_rowid (messages db) \<le> sqlite_sequence db"
    by (rule max_rowid_le)
  then show ?thesis by simp
qed

lemma db_run_insert_fault [simp]:
  "db_run_insert (Some e) msg tok db = (Inl e, db)"
  by (simp add: db_run_insert_def)

lemma db_run_insert_dup:
  "tok \<in> set (tokens db) \<Longrightarrow>
   db_run_insert None msg tok db = (Inl (SqliteError SQLITE_CONSTRAINT), db)"
  by (simp add: db_run_insert_def)

lemma db_run_insert_new:
  "wf_db db \<Longrightarrow> tok \<notin> set (tokens db) \<Longrightarrow>
   db_run_insert None msg tok db =
     (Inr (Suc (sqlite_sequence db)),
      \<lparr>messages = messages db @
         [\<lparr>msg_id = Suc (sqlite_sequence db), client_offset = tok, content = msg\<rparr>],
       sqlite_sequence = Suc (sqlite_sequence db)\<rparr>)"
  by (simp add: db_run_insert_def wf_max_rowid Let_def)

lemma wf_db_insert_new:
  assumes "wf_db db" and "tok \<notin> set (tokens db)"
  shows "wf_db \<lparr>messages = messages db @
            [\<lparr>msg_id = Suc (sqlite_sequence db), client_offset = tok, content = msg\<rparr>],
          sqlite_sequence = Suc (sqlite_sequence db)\<rparr>"
proof -
  from assms(1) have s: "sorted_wrt (<) (map msg_id (messages db))"
    and b: "\<forall>r\<in>set (messages db). 0 < msg_id r \<and> msg_id r \<le> sqlite_sequence db"
    and d: "distinct (tokens db)"
    by (auto simp: wf_db_def list_all_iff)
  from s b have "sorted_wrt (<) (map msg_id (messages db) @ [Suc (sqlite_sequence db)])"
    by (fastforce simp: sorted_wrt_append)
  moreover from b have "\<forall>r\<in>set (messages db). 0 < msg_id r \<and> msg_id r \<le> Suc (sqlite_sequence db)"
    by fastforce
  moreover from d assms(2) have "distinct (map client_offset (messages db) @ [tok])"
    by (simp add: tokens_def)
  ultimately show ?thesis
    by (simp add: wf_db_def list_all_iff tokens_def)
qed

lemma wf_db_run_insert:
  "wf_db db \<Longrightarrow> wf_db (snd (db_run_insert fault msg tok db))"
proof (cases fault)
  case None
  assume w: "wf_db db"
  show ?thesis
  proof (cases "tok \<in> set (tokens db)")
    case True
    with None w show ?thesis by (simp add: db_run_insert_dup)
  next
    case False
    with None w show ?thesis by (simp add: db_run_insert_new wf_db_insert_new)
  qed
next
  case (Some e)
  assume "wf_db db"
  with Some show ?thesis by simp
qed

lemma run_inserts_inv:
  "wf_db db \<Longrightarrow> run_inserts reqs db = (rs, db') \<Longrightarrow>
   wf_db db' \<and>
   sqlite_sequence db' = sqlite_sequence db + length (lastIDs rs) \<and>
   lastIDs rs = [Suc (sqlite_sequence db) ..< Suc (sqlite_sequence db) + length (lastIDs rs)] \<and>
   map msg_id (messages db') = map msg_id (messages db) @ lastIDs rs \<and>
   (\<exists>new. messages db' = messages db @ new \<and> map msg_id new = lastIDs rs)"
proof (induction reqs arbitrary: db rs db')
  case Nil
  then show ?case by simp
next
  case (Cons req reqs)
  obtain fault msg tok where req: "req = (fault, msg, tok)"
    by (cases req) auto
  obtain r db1 where step: "db_run_insert fault msg tok db = (r, db1)"
    by (cases "db_run_insert fault msg tok db") auto
  obtain rs1 db2 where rest: "run_inserts reqs db1 = (rs1, db2)"
    by (cases "run_inserts reqs db1") auto
  from Cons.prems(2) req step rest have rs: "rs = r # rs1" and db': "db' = db2"
    by auto
  from Cons.prems(1) step have wf1: "wf_db db1"
    using wf_db_run_insert [of db fault msg tok] by simp
  note ih = Cons.IH [OF wf1 rest]
  show ?case
  proof (cases "fault = None \<and> tok \<notin> set (tokens db)")
    case True
    with step Cons.prems(1) have r: "r = Inr (Suc (sqlite_sequence db))"
      and db1: "db1 = \<lparr>messages = messages db @
         [\<lparr>msg_id = Suc (sqlite_sequence db), client_offset = tok, content = msg\<rparr>],
       sqlite_sequence = Suc (sqlite_sequence db)\<rparr>"
      by (auto simp: db_run_insert_new)
    from ih db1 have seq: "sqlite_sequence db2 = Suc (sqlite_sequence db) + length (lastIDs rs1)"
      by simp
    from ih db1 have ids: "lastIDs rs1 = [Suc (Suc (sqlite_sequence db)) ..< Suc (Suc (sqlite_sequence db)) + length (lastIDs rs1)]"
      by simp
    have "lastIDs rs = Suc (sqlite_sequence db) # lastIDs rs1"
      using rs r by simp
    also have "\<dots> = Suc (sqlite_sequence db) # [Suc (Suc (sqlite_sequence db)) ..< Suc (Suc (sqlite_sequence db)) + length (lastIDs rs1)]"
      using ids by simp
    also have "\<dots> = [Suc (sqlite_sequence db) ..< Suc (sqlite_sequence db) + Suc (length (lastIDs rs1))]"
      by (simp add: upt_conv_Cons del: upt_Suc)
    also have "\<dots> = [Suc (sqlite_sequence db) ..< Suc (sqlite_sequence db) + length (lastIDs rs)]"
      using rs r by simp
    finally have c3: "lastIDs rs = [Suc (sqlite_sequence db) ..< Suc (sqlite_sequence db) + length (lastIDs rs)]" .
    from ih obtain new where new: "messages db2 = messages db1 @ new" "map msg_id new = lastIDs rs1"
      by blast
    have c5: "messages db' = messages db @ (\<lparr>msg_id = Suc (sqlite_sequence db), client_offset = tok, content = msg\<rparr> # new)
      \<and> map msg_id (\<lparr>msg_id = Suc (sqlite_sequence db), client_offset = tok, content = msg\<rparr> # new) = lastIDs rs"
      using new db1 db' rs r by simp
    then have c4: "map msg_id (messages db') = map msg_id (messages db) @ lastIDs rs"
      by (metis map_append)
    from ih db' seq rs r c3 c4 c5 show ?thesis
      by (intro conjI exI [of _ "\<lparr>msg_id = Suc (sqlite_sequence db), client_offset = tok, content = msg\<rparr> # new"]) simp_all
  next
    case False
    with step have r: "\<exists>e. r = Inl e" and db1: "db1 = db"
      by (cases fault; auto simp: db_run_insert_dup)+
    then obtain e where e: "r = Inl e" by blast
    from ih db1 db' rs e show ?thesis by simp
  qed
qed


lemma count_rows_distinct:
  "distinct (map f xs) \<Longrightarrow> k \<in> set (map f xs) \<Longrightarrow> length (filter (\<lambda>r. f r = k) xs) = 1"
proof (induction xs)
  case Nil
  then show ?case by simp
next
  case (Cons x xs)
  show ?case
  proof (cases "f x = k")
    case True
    from Cons.prems(1) have "f x \<notin> f ` set xs" by simp
    with True have "\<forall>r\<in>set xs. f r \<noteq> k" by blast
    then have "filter (\<lambda>r. f r = k) xs = []" by (simp add: filter_empty_conv)
    with True show ?thesis by simp
  next
    case False
    with Cons show ?thesis by auto
  qed
qed

section \<open>Properties of the handlers and of the pool\<close>

lemma in_io_emit:
  "ob \<in> set (io_emit ws msg n) \<longleftrightarrow>
     (\<exists>w s. w < length ws \<and> s \<in> set (ws ! w) \<and> ob = ChatMessage w (socket_id s) msg n)"
proof
  assume "ob \<in> set (io_emit ws msg n)"
  then obtain p where p: "p \<in> set (enumerate 0 ws)"
    and ob: "ob \<in> set (case p of (w, ss) \<Rightarrow> map (\<lambda>s. ChatMessage w (socket_id s) msg n) ss)"
    by (auto simp: io_emit_def)
  obtain w ss where pw: "p = (w, ss)" by (cases p)
  from p pw have "w < length ws" and "ws ! w = ss"
    by (simp_all add: in_set_enumerate_eq)
  moreover from ob pw obtain s where "s \<in> set ss" and "ob = ChatMessage w (socket_id s) msg n"
    by auto
  ultimately show "\<exists>w s. w < length ws \<and> s \<in> set (ws ! w) \<and> ob = ChatMessage w (socket_id s) msg n"
    by blast
next
  assume "\<exists>w s. w < length ws \<and> s \<in> set (ws ! w) \<and> ob = ChatMessage w (socket_id s) msg n"
  then obtain w s where w: "w < length ws" and s: "s \<in> set (ws ! w)"
    and ob: "ob = ChatMessage w (socket_id s) msg n"
    by blast
  from w have "(w, ws ! w) \<in> set (enumerate 0 ws)"
    by (simp add: in_set_enumerate_eq)
  moreover from s ob
  have "ob \<in> set (case (w, ws ! w) of (w, ss) \<Rightarrow> map (\<lambda>s. ChatMessage w (socket_id s) msg n) ss)"
    by simp
  ultimately show "ob \<in> set (io_emit ws msg n)"
    unfolding io_emit_def set_concat set_map by blast
qed

lemma length_io_emit_aux:
  "length (concat (map (\<lambda>(w, ss). map (\<lambda>s. ChatMessage w (socket_id s) msg n) ss) (enumerate k ws)))
     = sum_list (map length ws)"
  by (induction ws arbitrary: k) simp_all

lemma length_io_emit: "length (io_emit ws msg n) = sum_list (map length ws)"
  by (simp add: io_emit_def length_io_emit_aux)

lemma io_emit_no_ack: "filter is_ack (io_emit ws msg n) = []"
  by (auto simp: filter_empty_conv in_io_emit is_ack_def)

lemma lookup_socket_Some:
  "lookup_socket c w sid = Some s \<Longrightarrow> w < length (workers c) \<and> s \<in> set (workers c ! w) \<and> socket_id s = sid"
  by (auto simp: lookup_socket_def find_Some_iff split: if_splits)

lemma chat_message_dup:
  "tok \<in> set (tokens db) \<Longrightarrow> chat_message None msg tok db = ([Callback], db)"
  by (simp add: chat_message_def db_run_insert_dup SQLITE_CONSTRAINT_def)

lemma chat_message_new:
  "wf_db db \<Longrightarrow> tok \<notin> set (tokens db) \<Longrightarrow>
   chat_message None msg tok db =
     ([IoEmit msg (Suc (sqlite_sequence db)), Callback],
      \<lparr>messages = messages db @
         [\<lparr>msg_id = Suc (sqlite_sequence db), client_offset = tok, content = msg\<rparr>],
       sqlite_sequence = Suc (sqlite_sequence db)\<rparr>)"
  by (simp add: chat_message_def db_run_insert_new)

lemma chat_message_fault:
  "chat_message (Some e) msg tok db =
     (if errno e = 19 then [Callback] else [ConsoleError ''Database error:'' e], db)"
  by (simp add: chat_message_def)

lemma lookup_pool_empty_A: "lookup_socket pool_empty 0 ''A'' = Some sock_A"
  by (simp add: lookup_socket_def pool_empty_def sock_A_def)

lemma lookup_pool_hi_A: "lookup_socket pool_hi 0 ''A'' = Some sock_A"
  by (simp add: lookup_socket_def pool_hi_def sock_A_def)

lemma listener_sock_A: "''chat message'' \<in> set (listeners sock_A)"
  by (simp add: sock_A_def)

lemma serverOffset_or_0_eq:
  "serverOffset_or_0 v = (case v of None \<Rightarrow> 0 | Some n \<Rightarrow> n)"
  by (simp add: serverOffset_or_0_def split: option.splits)

lemma replayed_SocketEmit:
  "replayed (map (\<lambda>r. SocketEmit (f r) (g r)) rs) = map (\<lambda>r. (f r, g r)) rs"
  by (induction rs) simp_all

lemma run_callback_rows:
  "run_callback (map (\<lambda>r. (None, Some r)) rows) =
     map (\<lambda>row. SocketEmit (row_content row) (row_id row)) rows"
  by (induction rows) (simp_all add: replay_callback_def)

lemma crashed_SocketEmits: "\<not> crashed (map (\<lambda>r. SocketEmit (f r) (g r)) rs)"
  by (induction rs) simp_all

lemma crashed_append_Uncaught: "crashed (map (\<lambda>r. SocketEmit (f r) (g r)) rs @ [Uncaught ex])"
  by (induction rs) simp_all

lemma run_callback_row_error:
  "run_callback (map (\<lambda>r. (None, Some r)) rows @ [(Some e, None)]) =
     map (\<lambda>row. SocketEmit (row_content row) (row_id row)) rows @ [Uncaught TypeError]"
  by (induction rows) (simp_all add: replay_callback_def)

lemma connection_not_recovered:
  "\<not> recovered sock \<Longrightarrow>
   fst (connection None sock db) =
     ConsoleLog (''New client connected: '' @ socket_id sock) #
     map (\<lambda>r. SocketEmit (content r) (msg_id r))
       (filter (\<lambda>r. serverOffset_or_0 (serverOffset sock) < int (msg_id r)) (messages db))"
proof -
  assume n: "\<not> recovered sock"
  let ?rows = "map (\<lambda>r. \<lparr>row_id = msg_id r, row_content = content r\<rparr>)
    (filter (\<lambda>r. serverOffset_or_0 (serverOffset sock) < int (msg_id r)) (messages db))"
  have out: "db_each None (serverOffset_or_0 (serverOffset sock)) db = Resolved ?rows"
    by (simp add: db_each_def)
  have em: "run_callback (callback_calls (Resolved ?rows)) =
      map (\<lambda>row. SocketEmit (row_content row) (row_id row)) ?rows"
    by (simp only: callback_calls_def each_outcome.case run_callback_rows)
  have "\<not> crashed (run_callback (callback_calls (Resolved ?rows)))"
    unfolding em by (rule crashed_SocketEmits)
  with n out em have "fst (connection None sock db) =
      ConsoleLog (''New client connected: '' @ socket_id sock) #
      map (\<lambda>row. SocketEmit (row_content row) (row_id row)) ?rows"
    by (simp add: connection_def Let_def)
  then show ?thesis by (simp add: comp_def)
qed

lemma connection_recovered:
  "recovered sock \<Longrightarrow>
   fst (connection readFault sock db) = [ConsoleLog (''New client connected: '' @ socket_id sock)]"
  by (simp add: connection_def Let_def)

lemma connection_rejected:
  "\<not> recovered sock \<Longrightarrow>
   connection (Some (PrepareError e)) sock db =
     ([ConsoleLog (''New client connected: '' @ socket_id sock),
       ConsoleError ''Error recovering messages:'' e],
      sock\<lparr>listeners := listeners sock @ [''chat message'', ''disconnect'']\<rparr>)"
  by (simp add: connection_def db_each_def callback_calls_def Let_def)

lemma connection_row_error:
  "\<not> recovered sock \<Longrightarrow>
   connection (Some (StepError k e)) sock db =
     (ConsoleLog (''New client connected: '' @ socket_id sock) #
      map (\<lambda>row. SocketEmit (row_content row) (row_id row))
        (take k (map (\<lambda>r. \<lparr>row_id = msg_id r, row_content = content r\<rparr>)
           (filter (\<lambda>r. serverOffset_or_0 (serverOffset sock) < int (msg_id r)) (messages db)))) @
      [Uncaught TypeError],
      sock\<lparr>listeners := listeners sock @ [''chat message'']\<rparr>)"
proof -
  assume n: "\<not> recovered sock"
  let ?rows = "take k (map (\<lambda>r. \<lparr>row_id = msg_id r, row_content = content r\<rparr>)
    (filter (\<lambda>r. serverOffset_or_0 (serverOffset sock) < int (msg_id r)) (messages db)))"
  have out: "db_each (Some (StepError k e)) (serverOffset_or_0 (serverOffset sock)) db =
      RowError ?rows e"
    by (simp add: db_each_def)
  have em: "run_callback (callback_calls (RowError ?rows e)) =
      map (\<lambda>row. SocketEmit (row_content row) (row_id row)) ?rows @ [Uncaught TypeError]"
    by (simp only: callback_calls_def each_outcome.case run_callback_row_error)
  have "crashed (run_callback (callback_calls (RowError ?rows e)))"
    unfolding em by (rule crashed_append_Uncaught)
  with n out em show ?thesis
    by (simp add: connection_def Let_def)
qed

lemma wf_db_positive: "wf_db db \<Longrightarrow> r \<in> set (messages db) \<Longrightarrow> 0 < msg_id r"
  by (auto simp: wf_db_def list_all_iff)

lemma wf_db_sorted_filter:
  "wf_db db \<Longrightarrow> sorted_wrt (<) (map msg_id (filter P (messages db)))"
proof -
  assume "wf_db db"
  then have "sorted_wrt (<) (map msg_id (messages db))"
    by (simp add: wf_db_def)
  then have "sorted_wrt (\<lambda>a b. msg_id a < msg_id b) (messages db)"
    by (simp add: sorted_wrt_map)
  then have "sorted_wrt (\<lambda>a b. msg_id a < msg_id b) (filter P (messages db))"
    by (rule sorted_wrt_filter)
  then show ?thesis by (simp add: sorted_wrt_map)
qed

lemma perform_SocketEmits:
  "concat (map (perform ws w sid) (map (\<lambda>r. SocketEmit (f r) (g r)) rs)) =
     map (\<lambda>r. ChatMessage w sid (f r) (g r)) rs"
  by (induction rs) simp_all

lemma find_append_last:
  "\<forall>x\<in>set xs. \<not> P x \<Longrightarrow> P y \<Longrightarrow> find P (xs @ [y]) = Some y"
  by (induction xs) simp_all

lemma client_chat_message_new:
  assumes "wf_db (store c)" and "tok \<notin> set (tokens (store c))"
    and "lookup_socket c w sid = Some s" and "''chat message'' \<in> set (listeners s)"
  shows "fst (client_chat_message w sid None msg tok c) =
           io_emit (workers c) msg (Suc (sqlite_sequence (store c))) @ [Acknowledged w sid]"
  using assms by (simp add: client_chat_message_def chat_message_new)

lemma wf_db_row_by_id:
  assumes "wf_db db" and "r \<in> set (messages db)" and "r' \<in> set (messages db)"
    and "msg_id r = msg_id r'"
  shows "r = r'"
proof -
  from assms(1) have "sorted_wrt (<) (map msg_id (messages db))"
    by (simp add: wf_db_def)
  then have "distinct (map msg_id (messages db))"
    by (simp add: strict_sorted_iff)
  then have "inj_on msg_id (set (messages db))"
    by (simp add: distinct_map)
  with assms(2-4) show ?thesis
    by (auto dest: inj_onD)
qed

lemma wf_db_three: "wf_db db_three"
  by (simp add: wf_db_def db_three_def tokens_def)

lemma of_char_digit_char: "d < 10 \<Longrightarrow> (of_char (digit_char d) :: nat) = 48 + d"
  by (simp add: digit_char_def)

lemma is_digit_digit_char: "d < 10 \<Longrightarrow> is_digit (digit_char d)"
  by (simp add: is_digit_def of_char_digit_char)

lemma digit_value_digit_char: "d < 10 \<Longrightarrow> digit_value (digit_char d) = d"
  by (simp add: digit_value_def of_char_digit_char)

lemma is_digit_plain:
  "is_digit c \<Longrightarrow> \<not> is_white_space c \<and> c \<noteq> CHR ''-'' \<and> c \<noteq> CHR ''+''"
  by (auto simp: is_digit_def is_white_space_def)

lemma toString_digits: "list_all is_digit (toString n)"
proof (induction n rule: toString.induct)
  case (1 n)
  show ?case
  proof (cases "n < 10")
    case True
    then show ?thesis
      by (subst toString.simps) (simp add: is_digit_digit_char)
  next
    case False
    with "1" have "list_all is_digit (toString (n div 10))" by simp
    moreover have "is_digit (digit_char (n mod 10))"
      by (rule is_digit_digit_char) simp
    ultimately show ?thesis
      using False by (subst toString.simps) simp
  qed
qed

lemma toString_not_Nil: "toString n \<noteq> []"
  by (subst toString.simps) simp

lemma digits_value_snoc: "digits_value (ds @ [c]) = 10 * digits_value ds + digit_value c"
  by (simp add: digits_value_def)

lemma digits_value_toString: "digits_value (toString n) = n"
proof (induction n rule: toString.induct)
  case (1 n)
  show ?case
  proof (cases "n < 10")
    case True
    then show ?thesis
      by (subst toString.simps) (simp add: digits_value_def digit_value_digit_char)
  next
    case False
    with "1" have "digits_value (toString (n div 10)) = n div 10" by simp
    then have "digits_value (toString (n div 10) @ [digit_char (n mod 10)]) = n"
      by (simp add: digits_value_snoc digit_value_digit_char)
    with False show ?thesis
      by (subst toString.simps) simp
  qed
qed

lemma parseInt10_toString: "parseInt10 (toString n) = Some (int n)"
proof -
  obtain c cs where s: "toString n = c # cs"
    using toString_not_Nil [of n] by (cases "toString n") auto
  from toString_digits [of n] s have c: "is_digit c" and all: "list_all is_digit (c # cs)"
    by simp_all
  from is_digit_plain [OF c] have plain: "\<not> is_white_space c" "c \<noteq> CHR ''-''" "c \<noteq> CHR ''+''"
    by simp_all
  from all have tw: "takeWhile is_digit (c # cs) = c # cs"
    by (simp add: list_all_iff)
  have "parseInt10 (c # cs) = Some (int (digits_value (c # cs)))"
    unfolding parseInt10_def using plain tw by (simp add: Let_def)
  with s digits_value_toString [of n] show ?thesis by simp
qed

lemma fork_loop_ports:
  "map (\<lambda>e. e ''PORT'') (snd (fork_loop i numCPUs penv forked)) =
     map (\<lambda>e. e ''PORT'') forked @ map (\<lambda>j. Some (toString (3000 + j))) [i..<numCPUs]"
proof (induction i numCPUs penv forked rule: fork_loop.induct)
  case (1 i numCPUs penv forked)
  show ?case
  proof (cases "i < numCPUs")
    case True
    let ?penv = "penv(''PORT'' \<mapsto> toString (3000 + i))"
    have step: "fork_loop i numCPUs penv forked = fork_loop (Suc i) numCPUs ?penv (forked @ [?penv])"
      using True by (subst fork_loop.simps) (simp only: Let_def if_True)
    have "map (\<lambda>e. e ''PORT'') (snd (fork_loop (Suc i) numCPUs ?penv (forked @ [?penv]))) =
        map (\<lambda>e. e ''PORT'') (forked @ [?penv]) @
        map (\<lambda>j. Some (toString (3000 + j))) [Suc i..<numCPUs]"
      by (rule "1.IH" [OF True refl])
    also have "\<dots> = map (\<lambda>e. e ''PORT'') forked @
        map (\<lambda>j. Some (toString (3000 + j))) (i # [Suc i..<numCPUs])"
      by simp
    also have "i # [Suc i..<numCPUs] = [i..<numCPUs]"
      using True by (simp add: upt_conv_Cons)
    finally show ?thesis
      unfolding step .
  next
    case False
    then show ?thesis
      by (subst fork_loop.simps) simp
  qed
qed

lemma worker_port_PORT:
  "wenv ''PORT'' = Some (toString n) \<Longrightarrow> worker_port wenv = Some (int n)"
  by (simp add: worker_port_def toString_not_Nil parseInt10_toString)

lemma map_worker_port_primary:
  "map worker_port (primary numCPUs penv) = map (\<lambda>i. Some (3000 + int i)) [0..<numCPUs]"
proof -
  have ports: "map (\<lambda>e. e ''PORT'') (primary numCPUs penv) =
      map (\<lambda>j. Some (toString (3000 + j))) [0..<numCPUs]"
    using fork_loop_ports [of 0 numCPUs penv "[]"] by (simp add: primary_def)
  then have len: "length (primary numCPUs penv) = numCPUs"
    by (metis length_map length_upt minus_nat.diff_0)
  show ?thesis
  proof (rule nth_equalityI)
    show "length (map worker_port (primary numCPUs penv)) =
        length (map (\<lambda>i. Some (3000 + int i)) [0..<numCPUs])"
      using len by simp
  next
    fix i assume "i < length (map worker_port (primary numCPUs penv))"
    with len have i: "i < numCPUs" by simp
    with len have "(primary numCPUs penv ! i) ''PORT'' = map (\<lambda>e. e ''PORT'') (primary numCPUs penv) ! i"
      by simp
    also have "\<dots> = Some (toString (3000 + i))"
      unfolding ports using i by simp
    finally have "worker_port (primary numCPUs penv ! i) = Some (int (3000 + i))"
      by (rule worker_port_PORT)
    with i len show "map worker_port (primary numCPUs penv) ! i =
        map (\<lambda>i. Some (3000 + int i)) [0..<numCPUs] ! i"
      by simp
  qed
qed

lemma replay_rejected_logged_connection_stays:
  assumes "w < length (workers c)"
    and "\<not> recovered sock"
    and "socket_id sock \<notin> socket_id ` set (workers c ! w)"
    and "client_connect w (Some (PrepareError e)) sock c = (obs, c')"
  shows "obs = [Stdout w (''New client connected: '' @ socket_id sock),
                Stderr w ''Error recovering messages:'' e] \<and>
         store c' = store c \<and>
         (\<exists>s'. lookup_socket c' w (socket_id sock) = Some s' \<and>
               ''chat message'' \<in> set (listeners s')) \<and>
         (\<forall>msg n. ChatMessage w (socket_id sock) msg n \<in> set (io_emit (workers c') msg n)) \<and>
         (\<forall>w2 sid2 s2 msg tok.
            wf_db (store c') \<and> tok \<notin> set (tokens (store c')) \<and>
            lookup_socket c' w2 sid2 = Some s2 \<and> ''chat message'' \<in> set (listeners s2) \<longrightarrow>
            ChatMessage w (socket_id sock) msg (Suc (sqlite_sequence (store c')))
              \<in> set (fst (client_chat_message w2 sid2 None msg tok c')))"
proof -
  let ?s' = "sock\<lparr>listeners := listeners sock @ [''chat message'', ''disconnect'']\<rparr>"
  have conn: "connection (Some (PrepareError e)) sock (store c) =
      ([ConsoleLog (''New client connected: '' @ socket_id sock),
        ConsoleError ''Error recovering messages:'' e], ?s')"
    by (rule connection_rejected [OF assms(2)])
  from assms(1,4) conn
  have obs: "obs = [Stdout w (''New client connected: '' @ socket_id sock),
                    Stderr w ''Error recovering messages:'' e]"
    and c': "c' = c\<lparr>workers := (workers c)[w := workers c ! w @ [?s']]\<rparr>"
    by (auto simp: client_connect_def)
  from c' have st: "store c' = store c" by simp
  from c' assms(1) have tab: "w < length (workers c')" "workers c' ! w = workers c ! w @ [?s']"
    by simp_all
  have "\<forall>x\<in>set (workers c ! w). \<not> socket_id x = socket_id sock"
  proof (intro ballI notI)
    fix x assume "x \<in> set (workers c ! w)" and "socket_id x = socket_id sock"
    then have "socket_id sock \<in> socket_id ` set (workers c ! w)"
      by (metis imageI)
    with assms(3) show False by contradiction
  qed
  then have "find (\<lambda>s. socket_id s = socket_id sock) (workers c ! w @ [?s']) = Some ?s'"
    by (rule find_append_last) simp
  with tab have look: "lookup_socket c' w (socket_id sock) = Some ?s'"
    by (simp add: lookup_socket_def)
  then have active: "\<exists>s'. lookup_socket c' w (socket_id sock) = Some s' \<and>
      ''chat message'' \<in> set (listeners s')"
    by simp
  have live: "ChatMessage w (socket_id sock) msg n \<in> set (io_emit (workers c') msg n)" for msg n
  proof -
    from tab have "?s' \<in> set (workers c' ! w)" by simp
    with tab(1) have "\<exists>w0 s. w0 < length (workers c') \<and> s \<in> set (workers c' ! w0) \<and>
        ChatMessage w (socket_id sock) msg n = ChatMessage w0 (socket_id s) msg n"
      by (intro exI [of _ w] exI [of _ ?s']) simp
    then show ?thesis by (simp only: in_io_emit)
  qed
  have later: "ChatMessage w (socket_id sock) msg (Suc (sqlite_sequence (store c')))
      \<in> set (fst (client_chat_message w2 sid2 None msg tok c'))"
    if "wf_db (store c') \<and> tok \<notin> set (tokens (store c')) \<and>
        lookup_socket c' w2 sid2 = Some s2 \<and> ''chat message'' \<in> set (listeners s2)"
    for w2 sid2 s2 msg tok
  proof -
    from that have a: "wf_db (store c')" and b: "tok \<notin> set (tokens (store c'))"
      and l: "lookup_socket c' w2 sid2 = Some s2" and h: "''chat message'' \<in> set (listeners s2)"
      by blast+
    have "fst (client_chat_message w2 sid2 None msg tok c') =
        io_emit (workers c') msg (Suc (sqlite_sequence (store c'))) @ [Acknowledged w2 sid2]"
      by (rule client_chat_message_new [OF a b l h])
    with live show ?thesis by simp
  qed
  from obs st active live later show ?thesis by blast
qed

lemma client_connect_row_error:
  assumes "w < length (workers c)" and "\<not> recovered sock"
  shows "client_connect w (Some (StepError k e)) sock c =
     (Stdout w (''New client connected: '' @ socket_id sock) #
      map (\<lambda>row. ChatMessage w (socket_id sock) (row_content row) (row_id row))
        (take k (map (\<lambda>r. \<lparr>row_id = msg_id r, row_content = content r\<rparr>)
           (filter (\<lambda>r. serverOffset_or_0 (serverOffset sock) < int (msg_id r))
              (messages (store c))))) @
      [WorkerExit w],
      c\<lparr>workers := (workers c)[w := []]\<rparr>)"
  using assms(1)
  by (simp add: client_connect_def connection_row_error [OF assms(2)] crashed_append_Uncaught
      perform_SocketEmits del: map_map)

section \<open>The claims\<close>

text \<open>
  C1. As the claim states it, appending the same token twice yields the same sequence number
  on both calls. The store does not: on a fresh database the first insert of token t1 resolves
  with sequence number 1, and the second rejects with errno 19 and returns no sequence number.
\<close>

theorem append_twice_counterexample:
  "fst (db_run_insert None ''hi'' ''t1'' empty_db) = Inr 1 \<and>
   fst (db_run_insert None ''hi'' ''t1'' (snd (db_run_insert None ''hi'' ''t1'' empty_db)))
     = Inl (SqliteError 19)"
  by (simp add: db_run_insert_def empty_db_def tokens_def max_rowid_def SQLITE_CONSTRAINT_def)

text \<open>
  C1, as amended. When the insert runs twice with the same token and content and no fault of
  the storage layer, the second call rejects with errno 19 (SQLITE_CONSTRAINT), returns no
  sequence number and leaves the database as the first call left it; exactly one row carries
  the token afterwards. The first call resolves with the next sequence number when the token
  is new, and rejects in the same way when it is not. The chat handler answers the second
  call by the acknowledgment alone, so the sender is not failed.
\<close>

theorem append_twice:
  assumes "wf_db db"
    and "db_run_insert None msg tok db = (r1, db1)"
    and "db_run_insert None msg tok db1 = (r2, db2)"
  shows "r2 = Inl (SqliteError 19) \<and> db2 = db1 \<and>
         length (filter (\<lambda>r. client_offset r = tok) (messages db2)) = 1 \<and>
         (tok \<notin> set (tokens db) \<longrightarrow> r1 = Inr (Suc (sqlite_sequence db))) \<and>
         (tok \<in> set (tokens db) \<longrightarrow> r1 = Inl (SqliteError 19) \<and> db1 = db) \<and>
         chat_message None msg tok db1 = ([Callback], db1)"
proof -
  have wf1: "wf_db db1"
    using wf_db_run_insert [OF assms(1), of None msg tok] assms(2) by simp
  have mem: "tok \<in> set (tokens db1)"
  proof (cases "tok \<in> set (tokens db)")
    case True
    with assms(2) show ?thesis by (simp add: db_run_insert_dup)
  next
    case False
    with assms(1,2) show ?thesis by (auto simp: db_run_insert_new tokens_def)
  qed
  with assms(3) have second: "r2 = Inl (SqliteError 19)" "db2 = db1"
    by (simp_all add: db_run_insert_dup SQLITE_CONSTRAINT_def)
  from wf1 have "distinct (map client_offset (messages db1))"
    by (simp add: wf_db_def tokens_def)
  with mem have one: "length (filter (\<lambda>r. client_offset r = tok) (messages db1)) = 1"
    by (simp add: tokens_def count_rows_distinct)
  have first_new: "r1 = Inr (Suc (sqlite_sequence db))" if "tok \<notin> set (tokens db)"
    using that assms(1,2) by (simp add: db_run_insert_new)
  have first_dup: "r1 = Inl (SqliteError 19) \<and> db1 = db" if "tok \<in> set (tokens db)"
    using that assms(2) by (auto simp: db_run_insert_dup SQLITE_CONSTRAINT_def)
  have ack: "chat_message None msg tok db1 = ([Callback], db1)"
    using mem by (simp add: chat_message_def db_run_insert_dup SQLITE_CONSTRAINT_def)
  from second one first_new first_dup ack show ?thesis by simp
qed

theorem append_twice_witness:
  "wf_db empty_db \<and>
   db_run_insert None ''hi'' ''t1'' empty_db =
     (Inr 1, \<lparr>messages = [\<lparr>msg_id = 1, client_offset = ''t1'', content = ''hi''\<rparr>],
              sqlite_sequence = 1\<rparr>) \<and>
   db_run_insert None ''hi'' ''t1''
       \<lparr>messages = [\<lparr>msg_id = 1, client_offset = ''t1'', content = ''hi''\<rparr>], sqlite_sequence = 1\<rparr> =
     (Inl (SqliteError 19),
      \<lparr>messages = [\<lparr>msg_id = 1, client_offset = ''t1'', content = ''hi''\<rparr>], sqlite_sequence = 1\<rparr>) \<and>
   length (filter (\<lambda>r. client_offset r = ''t1'')
     (messages \<lparr>messages = [\<lparr>msg_id = 1, client_offset = ''t1'', content = ''hi''\<rparr>],
                sqlite_sequence = 1\<rparr>)) = 1"
proof -
  let ?db1 = "\<lparr>messages = [\<lparr>msg_id = 1, client_offset = ''t1'', content = ''hi''\<rparr>],
               sqlite_sequence = 1\<rparr>"
  have h1: "wf_db empty_db"
    by (simp add: wf_db_def empty_db_def tokens_def)
  have h2: "db_run_insert None ''hi'' ''t1'' empty_db = (Inr 1, ?db1)"
    by (simp add: db_run_insert_def empty_db_def tokens_def max_rowid_def)
  have h3: "db_run_insert None ''hi'' ''t1'' ?db1 = (Inl (SqliteError 19), ?db1)"
    by (simp add: db_run_insert_def tokens_def SQLITE_CONSTRAINT_def)
  from append_twice [OF h1 h2 h3]
  have "length (filter (\<lambda>r. client_offset r = ''t1'') (messages ?db1)) = 1"
    by blast
  with h1 h2 h3 show ?thesis by blast
qed

text \<open>
  C2. When a client submits a message whose token is already in the store and the insert
  meets no other fault, the handler invokes the acknowledgment callback and nothing else:
  the only thing observed in the whole pool is the acknowledgment to the sender, no chat
  message reaches any socket, and the store is unchanged.
\<close>

theorem duplicate_token_acknowledged_not_broadcast:
  assumes "tok \<in> set (tokens (store c))"
    and "lookup_socket c w sid = Some s"
    and "''chat message'' \<in> set (listeners s)"
  shows "chat_message None msg tok (store c) = ([Callback], store c) \<and>
         client_chat_message w sid None msg tok c = ([Acknowledged w sid], c)"
  using assms by (simp add: client_chat_message_def chat_message_dup)

theorem duplicate_token_acknowledged_not_broadcast_witness:
  "''t1'' \<in> set (tokens (store pool_hi)) \<and>
   lookup_socket pool_hi 0 ''A'' = Some sock_A \<and>
   ''chat message'' \<in> set (listeners sock_A) \<and>
   client_chat_message 0 ''A'' None ''hi'' ''t1'' pool_hi = ([Acknowledged 0 ''A''], pool_hi)"
proof -
  have h1: "''t1'' \<in> set (tokens (store pool_hi))"
    by (simp add: pool_hi_def db_hi_def tokens_def)
  note h2 = lookup_pool_hi_A and h3 = listener_sock_A
  from duplicate_token_acknowledged_not_broadcast [OF h1 h2 h3, of "''hi''"]
  have "client_chat_message 0 ''A'' None ''hi'' ''t1'' pool_hi = ([Acknowledged 0 ''A''], pool_hi)"
    by blast
  with h1 h2 h3 show ?thesis by blast
qed

text \<open>
  C3. When a client submits a message with a new token and the insert succeeds, the handler
  first emits the content with the newly assigned sequence number through the server, then
  invokes the callback. The emit reaches every socket of every worker, the sender's among
  them, once per connected socket; the acknowledgment is observed once, at the sender's
  socket on the worker that ran the handler; and the row with that sequence number is stored.
\<close>

theorem new_insert_broadcast_then_acknowledged:
  assumes "wf_db (store c)"
    and "tok \<notin> set (tokens (store c))"
    and "lookup_socket c w sid = Some s"
    and "''chat message'' \<in> set (listeners s)"
  shows "fst (chat_message None msg tok (store c)) =
           [IoEmit msg (Suc (sqlite_sequence (store c))), Callback] \<and>
         fst (client_chat_message w sid None msg tok c) =
           io_emit (workers c) msg (Suc (sqlite_sequence (store c))) @ [Acknowledged w sid] \<and>
         (\<forall>w' s'. w' < length (workers c) \<and> s' \<in> set (workers c ! w') \<longrightarrow>
            ChatMessage w' (socket_id s') msg (Suc (sqlite_sequence (store c)))
              \<in> set (io_emit (workers c) msg (Suc (sqlite_sequence (store c))))) \<and>
         ChatMessage w sid msg (Suc (sqlite_sequence (store c)))
           \<in> set (io_emit (workers c) msg (Suc (sqlite_sequence (store c)))) \<and>
         length (io_emit (workers c) msg (Suc (sqlite_sequence (store c))))
           = sum_list (map length (workers c)) \<and>
         filter is_ack (fst (client_chat_message w sid None msg tok c)) = [Acknowledged w sid] \<and>
         \<lparr>msg_id = Suc (sqlite_sequence (store c)), client_offset = tok, content = msg\<rparr>
           \<in> set (messages (store (snd (client_chat_message w sid None msg tok c))))"
proof -
  let ?n = "Suc (sqlite_sequence (store c))"
  have eff: "fst (chat_message None msg tok (store c)) = [IoEmit msg ?n, Callback]"
    using assms(1,2) by (simp add: chat_message_new)
  have obs: "fst (client_chat_message w sid None msg tok c) =
      io_emit (workers c) msg ?n @ [Acknowledged w sid]"
    using assms by (simp add: client_chat_message_def chat_message_new)
  have reach: "\<forall>w' s'. w' < length (workers c) \<and> s' \<in> set (workers c ! w') \<longrightarrow>
      ChatMessage w' (socket_id s') msg ?n \<in> set (io_emit (workers c) msg ?n)"
    by (auto simp: in_io_emit)
  from lookup_socket_Some [OF assms(3)] reach
  have own: "ChatMessage w sid msg ?n \<in> set (io_emit (workers c) msg ?n)"
    by blast
  have acks: "filter is_ack (fst (client_chat_message w sid None msg tok c)) = [Acknowledged w sid]"
    by (simp add: obs io_emit_no_ack is_ack_def)
  have row: "\<lparr>msg_id = ?n, client_offset = tok, content = msg\<rparr>
      \<in> set (messages (store (snd (client_chat_message w sid None msg tok c))))"
    using assms by (simp add: client_chat_message_def chat_message_new)
  have len: "length (io_emit (workers c) msg ?n) = sum_list (map length (workers c))"
    by (rule length_io_emit)
  from eff obs reach own len acks row
  show ?thesis by (intro conjI) assumption+
qed

theorem new_insert_broadcast_then_acknowledged_witness:
  "wf_db (store pool_empty) \<and>
   ''t1'' \<notin> set (tokens (store pool_empty)) \<and>
   lookup_socket pool_empty 0 ''A'' = Some sock_A \<and>
   ''chat message'' \<in> set (listeners sock_A) \<and>
   fst (client_chat_message 0 ''A'' None ''hi'' ''t1'' pool_empty) =
     [ChatMessage 0 ''A'' ''hi'' 1, ChatMessage 1 ''B'' ''hi'' 1, Acknowledged 0 ''A'']"
proof -
  have h1: "wf_db (store pool_empty)"
    by (simp add: pool_empty_def wf_empty_db)
  have h2: "''t1'' \<notin> set (tokens (store pool_empty))"
    by (simp add: pool_empty_def empty_db_def tokens_def)
  note h3 = lookup_pool_empty_A and h4 = listener_sock_A
  from new_insert_broadcast_then_acknowledged [OF h1 h2 h3 h4, of "''hi''"]
  have "fst (client_chat_message 0 ''A'' None ''hi'' ''t1'' pool_empty) =
      io_emit (workers pool_empty) ''hi'' (Suc (sqlite_sequence (store pool_empty))) @ [Acknowledged 0 ''A'']"
    by blast
  moreover have "io_emit (workers pool_empty) ''hi'' (Suc (sqlite_sequence (store pool_empty))) =
      [ChatMessage 0 ''A'' ''hi'' 1, ChatMessage 1 ''B'' ''hi'' 1]"
    by (simp add: io_emit_def pool_empty_def empty_db_def sock_A_def sock_B_def)
  ultimately have "fst (client_chat_message 0 ''A'' None ''hi'' ''t1'' pool_empty) =
      [ChatMessage 0 ''A'' ''hi'' 1, ChatMessage 1 ''B'' ''hi'' 1, Acknowledged 0 ''A'']"
    by simp
  with h1 h2 h3 h4 show ?thesis by blast
qed

text \<open>
  C4. When a connection is not recovered and the read succeeds, the handler emits to that
  socket exactly the stored rows whose id is greater than the offset of the handshake, an
  absent offset counting as 0: each with its own content and id, in ascending order of id,
  and nothing else besides the log line. With no offset the whole log is replayed.
\<close>

theorem replay_after_last_known_sequence:
  assumes "wf_db db" and "\<not> recovered sock" and "w < length (workers c)" and "store c = db"
  shows "serverOffset_or_0 (serverOffset sock) = (case serverOffset sock of None \<Rightarrow> 0 | Some n \<Rightarrow> n) \<and>
         replayed (fst (connection None sock db)) =
           map (\<lambda>r. (content r, msg_id r))
             (filter (\<lambda>r. serverOffset_or_0 (serverOffset sock) < int (msg_id r)) (messages db)) \<and>
         fst (connection None sock db) =
           ConsoleLog (''New client connected: '' @ socket_id sock) #
           map (\<lambda>(x, n). SocketEmit x n) (replayed (fst (connection None sock db))) \<and>
         fst (client_connect w None sock c) =
           Stdout w (''New client connected: '' @ socket_id sock) #
           map (\<lambda>(x, n). ChatMessage w (socket_id sock) x n) (replayed (fst (connection None sock db))) \<and>
         set (replayed (fst (connection None sock db))) =
           {(content r, msg_id r) | r.
              r \<in> set (messages db) \<and> serverOffset_or_0 (serverOffset sock) < int (msg_id r)} \<and>
         sorted_wrt (<) (map snd (replayed (fst (connection None sock db)))) \<and>
         (serverOffset sock = None \<longrightarrow>
            replayed (fst (connection None sock db)) = map (\<lambda>r. (content r, msg_id r)) (messages db))"
proof -
  let ?off = "serverOffset_or_0 (serverOffset sock)"
  let ?rows = "filter (\<lambda>r. ?off < int (msg_id r)) (messages db)"
  have off: "?off = (case serverOffset sock of None \<Rightarrow> 0 | Some n \<Rightarrow> n)"
    by (rule serverOffset_or_0_eq)
  have rep: "replayed (fst (connection None sock db)) = map (\<lambda>r. (content r, msg_id r)) ?rows"
    using assms(2) by (simp add: connection_not_recovered replayed_SocketEmit)
  have effs: "fst (connection None sock db) =
      ConsoleLog (''New client connected: '' @ socket_id sock) #
      map (\<lambda>(x, n). SocketEmit x n) (replayed (fst (connection None sock db)))"
    unfolding rep using assms(2) by (simp add: connection_not_recovered comp_def)
  have "fst (client_connect w None sock c) =
      concat (map (perform (workers c) w (socket_id sock)) (fst (connection None sock db)))"
    using assms(3,4) by (cases "connection None sock db") (simp add: client_connect_def)
  also have "\<dots> = Stdout w (''New client connected: '' @ socket_id sock) #
      map (\<lambda>r. ChatMessage w (socket_id sock) (content r) (msg_id r)) ?rows"
    using assms(2) by (simp add: connection_not_recovered perform_SocketEmits del: map_map)
  also have "\<dots> = Stdout w (''New client connected: '' @ socket_id sock) #
      map (\<lambda>(x, n). ChatMessage w (socket_id sock) x n) (replayed (fst (connection None sock db)))"
    unfolding rep by (simp add: comp_def)
  finally have obs: "fst (client_connect w None sock c) =
      Stdout w (''New client connected: '' @ socket_id sock) #
      map (\<lambda>(x, n). ChatMessage w (socket_id sock) x n) (replayed (fst (connection None sock db)))" .
  have st: "set (replayed (fst (connection None sock db))) =
      {(content r, msg_id r) | r. r \<in> set (messages db) \<and> ?off < int (msg_id r)}"
    unfolding rep by auto
  have asc: "sorted_wrt (<) (map snd (replayed (fst (connection None sock db))))"
    unfolding rep using wf_db_sorted_filter [OF assms(1)] by (simp add: comp_def)
  have whole: "serverOffset sock = None \<longrightarrow>
    replayed (fst (connection None sock db)) = map (\<lambda>r. (content r, msg_id r)) (messages db)"
  proof
    assume "serverOffset sock = None"
    then have "?off = 0" by (simp add: serverOffset_or_0_def)
    moreover have "\<forall>r\<in>set (messages db). (0::int) < int (msg_id r)"
      using wf_db_positive [OF assms(1)] by simp
    ultimately have "?rows = messages db" by simp
    with rep show "replayed (fst (connection None sock db)) = map (\<lambda>r. (content r, msg_id r)) (messages db)"
      by simp
  qed
  from off rep effs obs st asc whole show ?thesis by (intro conjI) assumption+
qed

theorem replay_after_last_known_sequence_witness:
  "wf_db db_three \<and> \<not> recovered new_B \<and> 1 < length (workers pool_three) \<and>
   store pool_three = db_three \<and>
   fst (client_connect 1 None new_B pool_three) =
     [Stdout 1 ''New client connected: B'', ChatMessage 1 ''B'' ''hi'' 1,
      ChatMessage 1 ''B'' ''yo'' 2, ChatMessage 1 ''B'' ''ok'' 3]"
proof -
  note h1 = wf_db_three
  have h2: "\<not> recovered new_B" by (simp add: new_B_def)
  have h3: "1 < length (workers pool_three)" by (simp add: pool_three_def)
  have h4: "store pool_three = db_three" by (simp add: pool_three_def)
  from replay_after_last_known_sequence [OF h1 h2 h3 h4]
  have rep: "replayed (fst (connection None new_B db_three)) =
      map (\<lambda>r. (content r, msg_id r))
        (filter (\<lambda>r. serverOffset_or_0 (serverOffset new_B) < int (msg_id r)) (messages db_three))"
    and obs: "fst (client_connect 1 None new_B pool_three) =
      Stdout 1 (''New client connected: '' @ socket_id new_B) #
      map (\<lambda>(x, n). ChatMessage 1 (socket_id new_B) x n) (replayed (fst (connection None new_B db_three)))"
    by blast+
  have "replayed (fst (connection None new_B db_three)) = [(''hi'', 1), (''yo'', 2), (''ok'', 3)]"
    unfolding rep by (simp add: serverOffset_or_0_def new_B_def db_three_def)
  with obs have "fst (client_connect 1 None new_B pool_three) =
     [Stdout 1 ''New client connected: B'', ChatMessage 1 ''B'' ''hi'' 1,
      ChatMessage 1 ''B'' ''yo'' 2, ChatMessage 1 ''B'' ''ok'' 3]"
    by (simp add: new_B_def)
  with h1 h2 h3 h4 show ?thesis by blast
qed

text \<open>
  C5. When the transport reports the connection as recovered, the handler emits no replay,
  whatever the database holds and whatever the read would have done: its only effect is the
  log line, and no chat message is observed at the connection.
\<close>

theorem recovered_connection_no_replay:
  assumes "recovered sock"
  shows "fst (connection readFault sock db) =
           [ConsoleLog (''New client connected: '' @ socket_id sock)] \<and>
         replayed (fst (connection readFault sock db)) = [] \<and>
         filter is_chat (fst (client_connect w readFault sock c)) = []"
proof -
  have effs: "fst (connection readFault sock db) =
      [ConsoleLog (''New client connected: '' @ socket_id sock)]" for db
    using assms by (rule connection_recovered)
  have "filter is_chat (fst (client_connect w readFault sock c)) = []"
    using effs [of "store c"]
    by (cases "connection readFault sock (store c)")
       (simp add: client_connect_def is_chat_def)
  with effs [of db] show ?thesis by simp
qed

theorem recovered_connection_no_replay_witness:
  "recovered back_B \<and>
   fst (connection None back_B db_three) = [ConsoleLog ''New client connected: B''] \<and>
   filter is_chat (fst (client_connect 1 None back_B pool_three)) = []"
proof -
  have h: "recovered back_B" by (simp add: back_B_def)
  from recovered_connection_no_replay [OF h, of None db_three 1 pool_three]
  have "fst (connection None back_B db_three) =
      [ConsoleLog (''New client connected: '' @ socket_id back_B)]"
    and "filter is_chat (fst (client_connect 1 None back_B pool_three)) = []"
    by blast+
  with h show ?thesis by (simp add: back_B_def)
qed

text \<open>
  C6. As the claim states it, every error other than the token's uniqueness violation,
  a constraint violation unrelated to the token included, is logged and not acknowledged.
  The handler tells the cases apart by \<^verbatim>\<open>e.errno === 19\<close> alone: an error with errno 19 raised
  for a token that is not in the store is acknowledged and not logged.
\<close>

theorem constraint_fault_counterexample:
  "''t1'' \<notin> set (tokens empty_db) \<and>
   chat_message (Some (SqliteError 19)) ''hi'' ''t1'' empty_db = ([Callback], empty_db)"
  by (simp add: chat_message_def empty_db_def tokens_def)

text \<open>
  C6, as amended. When the insert fails with an error whose errno is not 19, the handler logs
  the error and does nothing else: the callback is not invoked, nothing is broadcast, the
  store is unchanged, and the error is observed on the console of the worker.
\<close>

theorem other_fault_logged_not_acknowledged:
  assumes "errno e \<noteq> 19"
    and "lookup_socket c w sid = Some s"
    and "''chat message'' \<in> set (listeners s)"
  shows "chat_message (Some e) msg tok (store c) = ([ConsoleError ''Database error:'' e], store c) \<and>
         client_chat_message w sid (Some e) msg tok c = ([Stderr w ''Database error:'' e], c)"
  using assms by (simp add: client_chat_message_def chat_message_fault)

theorem other_fault_logged_not_acknowledged_witness:
  "errno (SqliteError 10) \<noteq> 19 \<and>
   lookup_socket pool_hi 0 ''A'' = Some sock_A \<and>
   ''chat message'' \<in> set (listeners sock_A) \<and>
   client_chat_message 0 ''A'' (Some (SqliteError 10)) ''yo'' ''t2'' pool_hi =
     ([Stderr 0 ''Database error:'' (SqliteError 10)], pool_hi)"
proof -
  have h1: "errno (SqliteError 10) \<noteq> 19" by simp
  note h2 = lookup_pool_hi_A and h3 = listener_sock_A
  from other_fault_logged_not_acknowledged [OF h1 h2 h3, of "''yo''" "''t2''"]
  have "client_chat_message 0 ''A'' (Some (SqliteError 10)) ''yo'' ''t2'' pool_hi =
      ([Stderr 0 ''Database error:'' (SqliteError 10)], pool_hi)"
    by blast
  with h1 h2 h3 show ?thesis by blast
qed

text \<open>
  C7. The claim: whenever the read of the replay fails, the error is logged and the
  connection stays active and goes on receiving live broadcasts. The code does so only for
  a read that rejects. When a step of the scan fails, the error goes to the row callback,
  which ignores it and reads the fields of a null row: the exception is uncaught, nothing
  is logged by the catch branch, and the worker exits with all its connections. Here client
  B connects to the worker that serves A, with three messages stored, and the first step of
  the read fails with errno 10: the only things observed are the connection log line and the
  exit of the worker; afterwards neither B nor A is connected and a broadcast reaches no one.
\<close>

theorem replay_step_error_kills_worker:
  "client_connect 0 (Some (StepError 0 (SqliteError 10))) new_B pool_three =
     ([Stdout 0 ''New client connected: B'', WorkerExit 0],
      \<lparr>store = db_three, workers = [[], []]\<rparr>) \<and>
   lookup_socket \<lparr>store = db_three, workers = [[], []]\<rparr> 0 ''B'' = None \<and>
   lookup_socket \<lparr>store = db_three, workers = [[], []]\<rparr> 0 ''A'' = None \<and>
   io_emit (workers \<lparr>store = db_three, workers = [[], []]\<rparr>) ''new'' 4 = []"
proof -
  have n: "\<not> recovered new_B" by (simp add: new_B_def)
  have w: "0 < length (workers pool_three)" by (simp add: pool_three_def)
  have "client_connect 0 (Some (StepError 0 (SqliteError 10))) new_B pool_three =
     ([Stdout 0 ''New client connected: B'', WorkerExit 0],
      \<lparr>store = db_three, workers = [[], []]\<rparr>)"
    unfolding client_connect_row_error [OF w n]
    by (simp add: pool_three_def new_B_def)
  moreover have "lookup_socket \<lparr>store = db_three, workers = [[], []]\<rparr> 0 ''B'' = None"
    and "lookup_socket \<lparr>store = db_three, workers = [[], []]\<rparr> 0 ''A'' = None"
    by (simp_all add: lookup_socket_def)
  moreover have "io_emit (workers \<lparr>store = db_three, workers = [[], []]\<rparr>) ''new'' 4 = []"
    by (simp add: io_emit_def)
  ultimately show ?thesis by (intro conjI) assumption+
qed

text \<open>
  C8. From a well-formed database, whatever requests are run (new tokens, duplicates, faults),
  the sequence numbers returned by the successful inserts are, in insertion order, the
  consecutive numbers from one above the last number handed out: strictly increasing, each
  the successor of the one before, and the rows appended to the table carry them in that order.
\<close>

theorem new_inserts_sequence_gapless:
  assumes "wf_db db" and "run_inserts reqs db = (rs, db')"
  shows "lastIDs rs = [Suc (sqlite_sequence db) ..< Suc (sqlite_sequence db) + length (lastIDs rs)] \<and>
         sorted_wrt (<) (lastIDs rs) \<and>
         (\<forall>i. Suc i < length (lastIDs rs) \<longrightarrow> lastIDs rs ! Suc i = Suc (lastIDs rs ! i)) \<and>
         map msg_id (messages db') = map msg_id (messages db) @ lastIDs rs"
proof -
  let ?s = "Suc (sqlite_sequence db)" and ?k = "length (lastIDs rs)"
  from run_inserts_inv [OF assms]
  have ids: "lastIDs rs = [?s ..< ?s + ?k]"
    and rows: "map msg_id (messages db') = map msg_id (messages db) @ lastIDs rs"
    by simp_all
  have "sorted_wrt (<) [?s ..< ?s + ?k]"
    by (rule sorted_wrt_upt)
  with ids have asc: "sorted_wrt (<) (lastIDs rs)"
    by simp
  have step: "lastIDs rs ! Suc i = Suc (lastIDs rs ! i)" if "Suc i < ?k" for i
  proof -
    from that have "[?s ..< ?s + ?k] ! Suc i = ?s + Suc i" and "[?s ..< ?s + ?k] ! i = ?s + i"
      by (simp_all del: upt_Suc)
    with ids show ?thesis by simp
  qed
  from ids asc step rows show ?thesis by blast
qed

theorem new_inserts_sequence_gapless_witness:
  "wf_db empty_db \<and>
   fst (run_inserts [(None, ''hi'', ''t1''), (None, ''hi'', ''t1''),
                     (Some (SqliteError 10), ''yo'', ''t2''), (None, ''yo'', ''t2'')] empty_db)
     = [Inr 1, Inl (SqliteError 19), Inl (SqliteError 10), Inr 2] \<and>
   lastIDs [Inr 1, Inl (SqliteError 19), Inl (SqliteError 10), Inr 2] = [1, 2]"
proof -
  let ?reqs = "[(None, ''hi'', ''t1''), (None, ''hi'', ''t1''),
                (Some (SqliteError 10), ''yo'', ''t2''), (None, ''yo'', ''t2'')]"
  let ?rs = "[Inr 1, Inl (SqliteError 19), Inl (SqliteError 10), Inr 2]"
  let ?db = "\<lparr>messages = [\<lparr>msg_id = 1, client_offset = ''t1'', content = ''hi''\<rparr>,
                          \<lparr>msg_id = 2, client_offset = ''t2'', content = ''yo''\<rparr>],
              sqlite_sequence = 2\<rparr>"
  have h1: "wf_db empty_db"
    by (simp add: wf_db_def empty_db_def tokens_def)
  have h2: "run_inserts ?reqs empty_db = (?rs, ?db)"
    by (simp add: db_run_insert_def empty_db_def tokens_def max_rowid_def SQLITE_CONSTRAINT_def)
  from new_inserts_sequence_gapless [OF h1 h2]
  have "lastIDs ?rs = [Suc (sqlite_sequence empty_db) ..< Suc (sqlite_sequence empty_db) + length (lastIDs ?rs)]"
    by blast
  then have "lastIDs ?rs = [1, 2]"
    by (simp add: empty_db_def upt_conv_Cons)
  with h1 h2 show ?thesis by simp
qed

text \<open>
  C9. Given the number of processing units, the primary starts that many workers; the worker
  forked in round \<open>i\<close> calls \<^verbatim>\<open>server.listen\<close> once, with the port 3000 + i, so the ports
  are distinct and sequential from the base 3000.
\<close>

theorem workers_ports_sequential:
  "length (primary numCPUs penv) = numCPUs \<and>
   map worker_listen (primary numCPUs penv) = map (\<lambda>i. [Some (3000 + int i)]) [0..<numCPUs] \<and>
   distinct (map worker_port (primary numCPUs penv)) \<and>
   (\<forall>wenv\<in>set (primary numCPUs penv). length (worker_listen wenv) = 1)"
proof -
  have len: "length (primary numCPUs penv) = numCPUs"
    using map_worker_port_primary [of numCPUs penv] by (metis length_map length_upt minus_nat.diff_0)
  have "map worker_listen (primary numCPUs penv) =
      map (\<lambda>p. [p]) (map worker_port (primary numCPUs penv))"
    by (simp add: worker_listen_def)
  also have "\<dots> = map (\<lambda>i. [Some (3000 + int i)]) [0..<numCPUs]"
    unfolding map_worker_port_primary by simp
  finally have listen: "map worker_listen (primary numCPUs penv) =
      map (\<lambda>i. [Some (3000 + int i)]) [0..<numCPUs]" .
  have "inj_on (\<lambda>i. Some (3000 + int i)) (set [0..<numCPUs])"
    by (rule inj_onI) simp
  then have dist: "distinct (map worker_port (primary numCPUs penv))"
    unfolding map_worker_port_primary by (simp add: distinct_map)
  have one: "\<forall>wenv\<in>set (primary numCPUs penv). length (worker_listen wenv) = 1"
    by (simp add: worker_listen_def)
  from len listen dist one show ?thesis by (intro conjI) assumption+
qed

theorem workers_ports_sequential_witness:
  "length (primary 4 Map.empty) = 4 \<and>
   map worker_listen (primary 4 Map.empty) = [[Some 3000], [Some 3001], [Some 3002], [Some 3003]]"
proof -
  from workers_ports_sequential [of 4 Map.empty]
  have len: "length (primary 4 Map.empty) = 4"
    and "map worker_listen (primary 4 Map.empty) = map (\<lambda>i. [Some (3000 + int i)]) [0..<4]"
    by blast+
  moreover have "[0..<4] = [0, 1, 2, 3]"
    by (simp add: upt_rec)
  ultimately show ?thesis by simp
qed

text \<open>
  C10. When a message is committed as a new insert, the sequence number of its live broadcast
  is the id of the row stored for it. After any further inserts that row is still the only
  one with that id, so a replay that reaches it emits the same content with the same
  sequence number and no other content under that number; and a client that reconnects
  with that sequence number as its offset is replayed exactly the messages committed after
  it, in order.
\<close>

theorem live_and_replay_same_sequence:
  assumes "wf_db db" and "tok \<notin> set (tokens db)"
    and "chat_message None msg tok db = (effs, db1)"
    and "run_inserts reqs db1 = (rs, db2)"
    and "\<not> recovered sock"
  shows "effs = [IoEmit msg (Suc (sqlite_sequence db)), Callback] \<and>
         \<lparr>msg_id = Suc (sqlite_sequence db), client_offset = tok, content = msg\<rparr> \<in> set (messages db2) \<and>
         (\<forall>r\<in>set (messages db2). msg_id r = Suc (sqlite_sequence db) \<longrightarrow> content r = msg) \<and>
         (serverOffset_or_0 (serverOffset sock) < int (Suc (sqlite_sequence db)) \<longrightarrow>
            (msg, Suc (sqlite_sequence db)) \<in> set (replayed (fst (connection None sock db2)))) \<and>
         (\<forall>x. (x, Suc (sqlite_sequence db)) \<in> set (replayed (fst (connection None sock db2)))
            \<longrightarrow> x = msg) \<and>
         (serverOffset sock = Some (int (Suc (sqlite_sequence db))) \<longrightarrow>
            map snd (replayed (fst (connection None sock db2))) = lastIDs rs)"
proof -
  let ?n = "Suc (sqlite_sequence db)"
  let ?row = "\<lparr>msg_id = ?n, client_offset = tok, content = msg\<rparr>"
  let ?off = "serverOffset_or_0 (serverOffset sock)"
  from assms(1-3) have effs: "effs = [IoEmit msg ?n, Callback]"
    and db1: "db1 = \<lparr>messages = messages db @ [?row], sqlite_sequence = ?n\<rparr>"
    by (simp_all add: chat_message_new)
  from db1 have wf1: "wf_db db1"
    using wf_db_insert_new [OF assms(1,2), of msg] by simp
  from run_inserts_inv [OF wf1 assms(4)] obtain new
    where wf2: "wf_db db2"
      and ids: "lastIDs rs = [Suc (sqlite_sequence db1) ..< Suc (sqlite_sequence db1) + length (lastIDs rs)]"
      and new: "messages db2 = messages db1 @ new" "map msg_id new = lastIDs rs"
    by blast
  from new db1 have rows2: "messages db2 = messages db @ [?row] @ new"
    by simp
  then have stored: "?row \<in> set (messages db2)"
    by simp
  have only: "\<forall>r\<in>set (messages db2). msg_id r = ?n \<longrightarrow> content r = msg"
  proof (intro ballI impI)
    fix r assume "r \<in> set (messages db2)" and "msg_id r = ?n"
    with wf_db_row_by_id [OF wf2 _ stored, of r] have "r = ?row" by simp
    then show "content r = msg" by simp
  qed
  have rep: "replayed (fst (connection None sock db2)) =
      map (\<lambda>r. (content r, msg_id r)) (filter (\<lambda>r. ?off < int (msg_id r)) (messages db2))"
    using assms(5) by (simp add: connection_not_recovered replayed_SocketEmit)
  have incl: "?off < int ?n \<longrightarrow> (msg, ?n) \<in> set (replayed (fst (connection None sock db2)))"
  proof
    assume "?off < int ?n"
    with stored have "?row \<in> set (filter (\<lambda>r. ?off < int (msg_id r)) (messages db2))"
      by simp
    then have "(content ?row, msg_id ?row) \<in> set (replayed (fst (connection None sock db2)))"
      unfolding rep by (metis (no_types, lifting) image_eqI set_map)
    then show "(msg, ?n) \<in> set (replayed (fst (connection None sock db2)))"
      by simp
  qed
  have same: "\<forall>x. (x, ?n) \<in> set (replayed (fst (connection None sock db2))) \<longrightarrow> x = msg"
  proof (intro allI impI)
    fix x assume "(x, ?n) \<in> set (replayed (fst (connection None sock db2)))"
    then obtain r where "r \<in> set (messages db2)" and "x = content r" and "msg_id r = ?n"
      unfolding rep by auto
    with only show "x = msg" by simp
  qed
  have cursor: "serverOffset sock = Some (int ?n) \<longrightarrow>
      map snd (replayed (fst (connection None sock db2))) = lastIDs rs"
  proof
    assume "serverOffset sock = Some (int ?n)"
    then have off: "?off = int ?n"
      by (simp add: serverOffset_or_0_def)
    from assms(1) have old: "\<forall>r\<in>set (messages db). \<not> ?n < msg_id r"
      by (auto simp: wf_db_def list_all_iff)
    have fresh: "\<forall>r\<in>set new. ?n < msg_id r"
    proof
      fix r assume "r \<in> set new"
      then have "msg_id r \<in> set (map msg_id new)" by simp
      with new(2) ids db1 have "msg_id r \<in> set [Suc ?n ..< Suc ?n + length (lastIDs rs)]"
        by simp
      then have "msg_id r \<in> {Suc ?n ..< Suc ?n + length (lastIDs rs)}"
        by (simp only: set_upt)
      then show "?n < msg_id r" by simp
    qed
    have "filter (\<lambda>r. ?off < int (msg_id r)) (messages db2) =
        filter (\<lambda>r. ?n < msg_id r) (messages db2)"
      by (rule filter_cong [OF refl]) (unfold off, rule of_nat_less_iff)
    also from old fresh have "\<dots> = new"
      unfolding rows2 by (simp add: filter_empty_conv)
    finally have "filter (\<lambda>r. ?off < int (msg_id r)) (messages db2) = new" .
    with rep new(2) show "map snd (replayed (fst (connection None sock db2))) = lastIDs rs"
      by (simp add: comp_def)
  qed
  from effs stored only incl same cursor show ?thesis by (intro conjI) assumption+
qed

theorem live_and_replay_same_sequence_witness:
  "wf_db empty_db \<and> ''t1'' \<notin> set (tokens empty_db) \<and>
   chat_message None ''hi'' ''t1'' empty_db = ([IoEmit ''hi'' 1, Callback], db_hi) \<and>
   run_inserts [(None, ''yo'', ''t2''), (None, ''ok'', ''t3'')] db_hi = ([Inr 2, Inr 3], db_three) \<and>
   \<not> recovered new_B \<and>
   (''hi'', 1) \<in> set (replayed (fst (connection None new_B db_three)))"
proof -
  have h1: "wf_db empty_db" by (rule wf_empty_db)
  have h2: "''t1'' \<notin> set (tokens empty_db)" by (simp add: empty_db_def tokens_def)
  have h3: "chat_message None ''hi'' ''t1'' empty_db = ([IoEmit ''hi'' 1, Callback], db_hi)"
    by (simp add: chat_message_def db_run_insert_def empty_db_def db_hi_def tokens_def max_rowid_def)
  have h4: "run_inserts [(None, ''yo'', ''t2''), (None, ''ok'', ''t3'')] db_hi = ([Inr 2, Inr 3], db_three)"
    by (simp add: db_run_insert_def db_hi_def db_three_def tokens_def max_rowid_def)
  have h5: "\<not> recovered new_B" by (simp add: new_B_def)
  from live_and_replay_same_sequence [OF h1 h2 h3 h4 h5]
  have "serverOffset_or_0 (serverOffset new_B) < int (Suc (sqlite_sequence empty_db)) \<longrightarrow>
      (''hi'', Suc (sqlite_sequence empty_db)) \<in> set (replayed (fst (connection None new_B db_three)))"
    by blast
  then have "(''hi'', 1) \<in> set (replayed (fst (connection None new_B db_three)))"
    by (simp add: serverOffset_or_0_def new_B_def empty_db_def)
  with h1 h2 h3 h4 h5 show ?thesis by blast
qed

end
